theory Spec2Isabelle
  imports Complex_Main
begin

section \<open>Julia-set animation: the escape-time evaluator and the frame generator\<close>

text \<open>
  The development embeds \<^verbatim>\<open>src/julia.py\<close>. The program computes with IEEE doubles,
  which round, overflow and, in Python, raise \<^verbatim>\<open>OverflowError\<close>. The model therefore has
  two layers.

  \<^item> The program over an arbitrary floating-point arithmetic: every arithmetic operation
    the source performs is a field of the record \<open>arith\<close>, and the operations that can
    raise return an error value. A theorem stated for every arithmetic holds for the
    arithmetic of the running program, whatever it rounds to and wherever it raises.
  \<^item> The evaluator in exact arithmetic, \<open>julia_quadratic\<close>, over \<^typ>\<open>real\<close> and
    \<^typ>\<open>complex\<close>. It is the instance \<open>exact_arith\<close> of the first layer and agrees
    with doubles wherever every intermediate value is exactly representable; concrete
    inputs are evaluated in it.

  Python's \<^verbatim>\<open>int\<close> is \<^typ>\<open>int\<close>.
\<close>

subsection \<open>\<^verbatim>\<open>Julia.julia_quadratic\<close> (lines 22--47) in exact arithmetic\<close>

text \<open>
  The body of the \<^verbatim>\<open>for i in range(threshold)\<close> loop, run over the remaining
  indices of the range. \<open>Some i\<close> is the early \<^verbatim>\<open>return i\<close>; \<open>None\<close> means the
  range was exhausted. The accumulator \<^verbatim>\<open>traveled\<close> is threaded as the source does,
  although nothing reads it.
\<close>

fun julia_loop :: "complex \<Rightarrow> complex \<Rightarrow> real \<Rightarrow> int list \<Rightarrow> int option" where
  "julia_loop z c traveled [] = None"
| "julia_loop z c traveled (i # rest) =
     (let z' = z\<^sup>2 + c;
          traveled' = traveled + cmod z'
      in if cmod z' > 4 then Some i else julia_loop z' c traveled' rest)"

definition julia_quadratic :: "real \<Rightarrow> real \<Rightarrow> real \<Rightarrow> real \<Rightarrow> int \<Rightarrow> int" where
  "julia_quadratic zx zy cx cy threshold =
     (let z = Complex zx zy;
          c = Complex cx cy;
          traveled = 0
      in case julia_loop z c traveled [0..threshold - 1] of
           Some i \<Rightarrow> i
         | None \<Rightarrow> threshold - 1)"

subsection \<open>Errors and the floating-point arithmetic\<close>

text \<open>
  The source has no \<^verbatim>\<open>raise\<close> statement; every error comes from Python or numpy.
  \<^verbatim>\<open>OverflowError\<close> is raised by \<^verbatim>\<open>z ** 2\<close> and \<^verbatim>\<open>abs(z)\<close> on a complex number
  and by the conversion of an integer that no double can hold; \<^verbatim>\<open>TypeError\<close> and
  \<^verbatim>\<open>ValueError\<close> by \<^verbatim>\<open>numpy.linspace\<close> for a sample count that is not an integer
  or is negative; \<^verbatim>\<open>MemoryError\<close> (or \<^verbatim>\<open>ValueError\<close>, for a size numpy refuses) by
  the allocation of an array that is too large; \<^verbatim>\<open>IndexError\<close> by an index out of
  range; \<^verbatim>\<open>AttributeError\<close> by reading \<^verbatim>\<open>self.re\<close>, \<^verbatim>\<open>self.im\<close> or
  \<^verbatim>\<open>self.a\<close> before \<^verbatim>\<open>generate\<close> has assigned them.
\<close>

datatype error =
  ValueError | TypeError | OverflowError | MemoryError | IndexError | AttributeError

text \<open>
  The arithmetic the source uses, over a type \<open>'f\<close> of floats and a type \<open>'c\<close> of
  complex floats. Nothing is assumed about the operations: they may round, produce
  infinities or NaN, and those that Python and numpy let raise return an error.
  \<^item> \<open>complex_of\<close> is \<^verbatim>\<open>complex(x, y)\<close>, \<open>c_pow2\<close> is \<^verbatim>\<open>z ** 2\<close>, \<open>c_add\<close> is
    \<^verbatim>\<open>+\<close> on complex numbers, \<open>c_abs\<close> is \<^verbatim>\<open>abs(z)\<close> and \<open>f_gt4\<close> is the
    test \<^verbatim>\<open>abs(z) > 4.\<close>;
  \<^item> \<open>f_of_nat\<close> is the float of a small index (\<^verbatim>\<open>arange\<close>, the literal \<^verbatim>\<open>0\<close>),
    \<open>f_of_int\<close> the conversion of a Python integer to a double;
  \<^item> \<open>f_add\<close>, \<open>f_sub\<close>, \<open>f_mul\<close>, \<open>f_div\<close> and \<open>f_is_zero\<close> are the float operations
    and the test \<^verbatim>\<open>step == 0\<close> of numpy, which warn but do not raise;
  \<^item> \<open>f_cos\<close>, \<open>f_sin\<close> are \<^verbatim>\<open>np.cos\<close>, \<^verbatim>\<open>np.sin\<close> and \<open>f_two_pi\<close> is
    \<^verbatim>\<open>2 * np.pi\<close>;
  \<^item> \<open>f_alloc n\<close> is the allocation of an array of \<open>n\<close> floats: \<open>None\<close> when numpy
    obtains the memory, otherwise the error it raises.
\<close>

record ('f, 'c) arith =
  complex_of :: "'f \<Rightarrow> 'f \<Rightarrow> 'c"
  c_pow2 :: "'c \<Rightarrow> error + 'c"
  c_add :: "'c \<Rightarrow> 'c \<Rightarrow> 'c"
  c_abs :: "'c \<Rightarrow> error + 'f"
  f_gt4 :: "'f \<Rightarrow> bool"
  f_of_nat :: "nat \<Rightarrow> 'f"
  f_of_int :: "int \<Rightarrow> error + 'f"
  f_add :: "'f \<Rightarrow> 'f \<Rightarrow> 'f"
  f_sub :: "'f \<Rightarrow> 'f \<Rightarrow> 'f"
  f_mul :: "'f \<Rightarrow> 'f \<Rightarrow> 'f"
  f_div :: "'f \<Rightarrow> 'f \<Rightarrow> 'f"
  f_is_zero :: "'f \<Rightarrow> bool"
  f_cos :: "'f \<Rightarrow> 'f"
  f_sin :: "'f \<Rightarrow> 'f"
  f_two_pi :: 'f
  f_alloc :: "nat \<Rightarrow> error option"

text \<open>A Python number: an \<^verbatim>\<open>int\<close> or a \<^verbatim>\<open>float\<close>.\<close>

datatype 'f pynum = PyInt int | PyFloat 'f

text \<open>
  \<^verbatim>\<open>a + b\<close> and \<^verbatim>\<open>a * b\<close> on Python numbers: integers stay integers, and a mixed
  operation first converts the integer to a float, which raises when it is too large.
\<close>

fun py_add :: "('f, 'c) arith \<Rightarrow> 'f pynum \<Rightarrow> 'f pynum \<Rightarrow> error + 'f pynum" where
  "py_add ar (PyInt a) (PyInt b) = Inr (PyInt (a + b))"
| "py_add ar (PyFloat x) (PyFloat y) = Inr (PyFloat (f_add ar x y))"
| "py_add ar (PyInt a) (PyFloat y) =
     (case f_of_int ar a of Inl e \<Rightarrow> Inl e | Inr x \<Rightarrow> Inr (PyFloat (f_add ar x y)))"
| "py_add ar (PyFloat x) (PyInt b) =
     (case f_of_int ar b of Inl e \<Rightarrow> Inl e | Inr y \<Rightarrow> Inr (PyFloat (f_add ar x y)))"

fun py_mul :: "('f, 'c) arith \<Rightarrow> 'f pynum \<Rightarrow> 'f pynum \<Rightarrow> error + 'f pynum" where
  "py_mul ar (PyInt a) (PyInt b) = Inr (PyInt (a * b))"
| "py_mul ar (PyFloat x) (PyFloat y) = Inr (PyFloat (f_mul ar x y))"
| "py_mul ar (PyInt a) (PyFloat y) =
     (case f_of_int ar a of Inl e \<Rightarrow> Inl e | Inr x \<Rightarrow> Inr (PyFloat (f_mul ar x y)))"
| "py_mul ar (PyFloat x) (PyInt b) =
     (case f_of_int ar b of Inl e \<Rightarrow> Inl e | Inr y \<Rightarrow> Inr (PyFloat (f_mul ar x y)))"

text \<open>The conversion of a Python number to a double, as numpy does for an array.\<close>

fun to_float :: "('f, 'c) arith \<Rightarrow> 'f pynum \<Rightarrow> error + 'f" where
  "to_float ar (PyInt a) = f_of_int ar a"
| "to_float ar (PyFloat x) = Inr x"

subsection \<open>\<^verbatim>\<open>Julia.julia_quadratic\<close> (lines 22--47) over an arbitrary arithmetic\<close>

text \<open>
  The same loop with the operations of the arithmetic. \<^verbatim>\<open>abs(z)\<close> is evaluated twice,
  on lines 44 and 45, and either evaluation can raise.
\<close>

fun julia_loop_fp ::
  "('f, 'c) arith \<Rightarrow> 'c \<Rightarrow> 'c \<Rightarrow> 'f \<Rightarrow> int list \<Rightarrow> error + int option" where
  "julia_loop_fp ar z c traveled [] = Inr None"
| "julia_loop_fp ar z c traveled (i # rest) =
     (case c_pow2 ar z of
        Inl e \<Rightarrow> Inl e
      | Inr p \<Rightarrow>
          let z' = c_add ar p c in
          (case c_abs ar z' of
             Inl e \<Rightarrow> Inl e
           | Inr m \<Rightarrow>
               let traveled' = f_add ar traveled m in
               (case c_abs ar z' of
                  Inl e \<Rightarrow> Inl e
                | Inr m' \<Rightarrow>
                    if f_gt4 ar m' then Inr (Some i)
                    else julia_loop_fp ar z' c traveled' rest)))"

definition julia_quadratic_fp ::
  "('f, 'c) arith \<Rightarrow> 'f \<Rightarrow> 'f \<Rightarrow> 'f \<Rightarrow> 'f \<Rightarrow> int \<Rightarrow> error + int" where
  "julia_quadratic_fp ar zx zy cx cy threshold =
     (let z = complex_of ar zx zy;
          c = complex_of ar cx cy;
          traveled = f_of_nat ar 0
      in case julia_loop_fp ar z c traveled [0..threshold - 1] of
           Inl e \<Rightarrow> Inl e
         | Inr (Some i) \<Rightarrow> Inr i
         | Inr None \<Rightarrow> Inr (threshold - 1))"

text \<open>
  The iterates as the loop computes them: \<open>orbit_fp ar z c k\<close> is the value of \<^verbatim>\<open>z\<close>
  after \<open>k\<close> executions of \<^verbatim>\<open>z = z ** 2 + c\<close>, or the error \<^verbatim>\<open>z ** 2\<close> raised on the
  way.
\<close>

primrec orbit_fp :: "('f, 'c) arith \<Rightarrow> 'c \<Rightarrow> 'c \<Rightarrow> nat \<Rightarrow> error + 'c" where
  "orbit_fp ar z c 0 = Inr z"
| "orbit_fp ar z c (Suc k) =
     (case orbit_fp ar z c k of
        Inl e \<Rightarrow> Inl e
      | Inr zk \<Rightarrow> (case c_pow2 ar zk of Inl e \<Rightarrow> Inl e | Inr p \<Rightarrow> Inr (c_add ar p c)))"

text \<open>
  The value stored by \<^verbatim>\<open>X[i, j] = self.julia_quadratic(...)\<close>: the escape time,
  converted to the float the array holds.
\<close>

definition escape_cell ::
  "('f, 'c) arith \<Rightarrow> 'f \<Rightarrow> 'f \<Rightarrow> 'f \<Rightarrow> 'f \<Rightarrow> int \<Rightarrow> error + 'f" where
  "escape_cell ar zx zy cx cy threshold =
     (case julia_quadratic_fp ar zx zy cx cy threshold of
        Inl e \<Rightarrow> Inl e
      | Inr v \<Rightarrow> f_of_int ar v)"

subsection \<open>The numpy operations the source calls\<close>

text \<open>
  The samples of \<^verbatim>\<open>numpy.linspace\<close> for \<open>n\<close> samples between the doubles \<open>a\<close> and
  \<open>b\<close>, as the library computes them with \<^verbatim>\<open>endpoint=True\<close>:
  \<^verbatim>\<open>arange(0, n) * step + a\<close> with \<^verbatim>\<open>step = (b - a) / (n - 1)\<close>; 
  \<^verbatim>\<open>(arange(0, n) / (n - 1)) * (b - a) + a\<close> when the step is zero;
  \<^verbatim>\<open>arange(0, n) * (b - a) + a\<close> when \<^verbatim>\<open>n - 1\<close> is not positive; and for
  \<^verbatim>\<open>n > 1\<close> the last sample is overwritten with \<open>b\<close>.
\<close>

definition linspace_samples :: "('f, 'c) arith \<Rightarrow> 'f \<Rightarrow> 'f \<Rightarrow> nat \<Rightarrow> 'f list" where
  "linspace_samples ar a b n =
     (let dv = n - 1;
          delta = f_sub ar b a;
          y = (if dv > 0 then
                 (let step = f_div ar delta (f_of_nat ar dv)
                  in if f_is_zero ar step
                     then map (\<lambda>k. f_add ar
                                 (f_mul ar (f_div ar (f_of_nat ar k) (f_of_nat ar dv)) delta) a)
                            [0..<n]
                     else map (\<lambda>k. f_add ar (f_mul ar (f_of_nat ar k) step) a) [0..<n])
               else map (\<lambda>k. f_add ar (f_mul ar (f_of_nat ar k) delta) a) [0..<n])
      in if n > 1 then y[n - 1 := b] else y)"

text \<open>
  \<^verbatim>\<open>numpy.linspace(start, stop, num)\<close>: \<^verbatim>\<open>operator.index(num)\<close> raises
  \<^verbatim>\<open>TypeError\<close> for a float, a negative \<^verbatim>\<open>num\<close> raises \<^verbatim>\<open>ValueError\<close>, then
  \<^verbatim>\<open>start\<close> and \<^verbatim>\<open>stop\<close> are converted to doubles, the array is allocated and
  the samples are computed.
\<close>

definition linspace ::
  "('f, 'c) arith \<Rightarrow> 'f pynum \<Rightarrow> 'f pynum \<Rightarrow> 'f pynum \<Rightarrow> error + 'f list" where
  "linspace ar start stop num =
     (case num of
        PyFloat x \<Rightarrow> Inl TypeError
      | PyInt n \<Rightarrow>
          if n < 0 then Inl ValueError
          else
            (case to_float ar start of
               Inl e \<Rightarrow> Inl e
             | Inr a \<Rightarrow>
                 (case to_float ar stop of
                    Inl e \<Rightarrow> Inl e
                  | Inr b \<Rightarrow>
                      (case f_alloc ar (nat n) of
                         Some e \<Rightarrow> Inl e
                       | None \<Rightarrow> Inr (linspace_samples ar a b (nat n))))))"

text \<open>A two-dimensional array of floats: its shape and its rows.\<close>

record 'f ndarray =
  shape :: "nat \<times> nat"
  data :: "'f list list"

text \<open>
  \<^verbatim>\<open>np.empty\<close> allocates the array and leaves the cells uninitialised; the model
  fills them with the float \<open>0\<close>. Every cell is assigned before the array is handed on.
\<close>

definition empty_cells :: "('f, 'c) arith \<Rightarrow> nat \<times> nat \<Rightarrow> 'f ndarray" where
  "empty_cells ar sh =
     \<lparr>shape = sh, data = replicate (fst sh) (replicate (snd sh) (f_of_nat ar 0))\<rparr>"

definition np_empty :: "('f, 'c) arith \<Rightarrow> nat \<times> nat \<Rightarrow> error + 'f ndarray" where
  "np_empty ar sh =
     (case f_alloc ar (fst sh * snd sh) of
        Some e \<Rightarrow> Inl e
      | None \<Rightarrow> Inr (empty_cells ar sh))"

text \<open>The assignment \<^verbatim>\<open>X[i, j] = v\<close>, for indices within the shape.\<close>

definition setitem :: "'f ndarray \<Rightarrow> nat \<Rightarrow> nat \<Rightarrow> 'f \<Rightarrow> 'f ndarray" where
  "setitem X i j v = X\<lparr>data := (data X)[i := (data X ! i)[j := v]]\<rparr>"

text \<open>The transposed array \<^verbatim>\<open>X.T\<close>.\<close>

definition transposed :: "'f ndarray \<Rightarrow> 'f ndarray" where
  "transposed X =
     \<lparr>shape = (snd (shape X), fst (shape X)),
      data = map (\<lambda>j. map (\<lambda>i. data X ! i ! j) [0..<fst (shape X)]) [0..<snd (shape X)]\<rparr>"

subsection \<open>The double loop of \<^verbatim>\<open>Julia.animate\<close> (lines 66--68)\<close>

primrec inner_loop ::
  "('f, 'c) arith \<Rightarrow> 'f list \<Rightarrow> 'f list \<Rightarrow> 'f \<Rightarrow> 'f \<Rightarrow> int \<Rightarrow> nat \<Rightarrow> nat list \<Rightarrow>
     'f ndarray \<Rightarrow> error + 'f ndarray" where
  "inner_loop ar re im cx cy threshold i [] X = Inr X"
| "inner_loop ar re im cx cy threshold i (j # js) X =
     (case escape_cell ar (re ! i) (im ! j) cx cy threshold of
        Inl e \<Rightarrow> Inl e
      | Inr v \<Rightarrow> inner_loop ar re im cx cy threshold i js (setitem X i j v))"

primrec outer_loop ::
  "('f, 'c) arith \<Rightarrow> 'f list \<Rightarrow> 'f list \<Rightarrow> 'f \<Rightarrow> 'f \<Rightarrow> int \<Rightarrow> nat list \<Rightarrow>
     'f ndarray \<Rightarrow> error + 'f ndarray" where
  "outer_loop ar re im cx cy threshold [] X = Inr X"
| "outer_loop ar re im cx cy threshold (i # is) X =
     (case inner_loop ar re im cx cy threshold i [0..<length im] X of
        Inl e \<Rightarrow> Inl e
      | Inr X' \<Rightarrow> outer_loop ar re im cx cy threshold is X')"

subsection \<open>The configuration and \<^verbatim>\<open>Julia.__init__\<close> (lines 9--19)\<close>

text \<open>
  The origin and the extents are Python numbers, integers in the module's own
  configuration; the radius is a float; the density, the threshold, the interval and the
  number of frames are integers.
\<close>

record 'f config =
  x_start :: "'f pynum"
  y_start :: "'f pynum"
  width :: "'f pynum"
  height :: "'f pynum"
  init_r :: 'f
  density :: int
  threshold :: int
  interval :: int
  frames :: int
  filename :: string

text \<open>
  The \<^verbatim>\<open>Julia\<close> object: the fields \<^verbatim>\<open>__init__\<close> copies from the configuration,
  and the attributes \<^verbatim>\<open>generate\<close> assigns later (\<open>None\<close> until then).
  \<open>self_ax\<close> is the image the axes currently show.
\<close>

record 'f julia = "'f config" +
  self_re :: "'f list option"
  self_im :: "'f list option"
  self_a :: "'f list option"
  self_ax :: "'f ndarray option"

definition init :: "'f config \<Rightarrow> 'f julia" where
  "init conf =
     \<lparr>x_start = x_start conf,
      y_start = y_start conf,
      width = width conf,
      height = height conf,
      init_r = init_r conf,
      density = density conf,
      threshold = threshold conf,
      interval = interval conf,
      frames = frames conf,
      filename = filename conf,
      self_re = None, self_im = None, self_a = None, self_ax = None\<rparr>"

subsection \<open>\<^verbatim>\<open>Julia.animate\<close> (lines 50--71)\<close>

text \<open>The constant \<open>c = (cx, cy)\<close> of frame \<open>i\<close> (lines 62--63).\<close>

definition frame_constant :: "('f, 'c) arith \<Rightarrow> 'f \<Rightarrow> 'f list \<Rightarrow> nat \<Rightarrow> 'f \<times> 'f" where
  "frame_constant ar r a i = (f_mul ar r (f_cos ar (a ! i)), f_mul ar r (f_sin ar (a ! i)))"

text \<open>Lines 59--68: the array \<^verbatim>\<open>X\<close> once the double loop has filled it.\<close>

definition escape_grid :: "('f, 'c) arith \<Rightarrow> 'f julia \<Rightarrow> nat \<Rightarrow> error + 'f ndarray" where
  "escape_grid ar self i =
     (case (self_re self, self_im self, self_a self) of
        (Some re, Some im, Some a) \<Rightarrow>
          (case np_empty ar (length re, length im) of
             Inl e \<Rightarrow> Inl e
           | Inr X \<Rightarrow>
               if i < length a then
                 let (cx, cy) = frame_constant ar (init_r self) a i
                 in outer_loop ar re im cx cy (threshold self) [0..<length re] X
               else Inl IndexError)
      | _ \<Rightarrow> Inl AttributeError)"

text \<open>
  \<open>animate ar self i\<close> clears the axes, computes the array and returns the updated
  object with the array handed to \<^verbatim>\<open>imshow\<close>, which is \<^verbatim>\<open>X.T\<close>.
\<close>

definition animate ::
  "('f, 'c) arith \<Rightarrow> 'f julia \<Rightarrow> nat \<Rightarrow> error + 'f julia \<times> 'f ndarray" where
  "animate ar self i =
     (let self1 = self\<lparr>self_ax := None\<rparr>
      in case escape_grid ar self1 i of
           Inl e \<Rightarrow> Inl e
         | Inr X \<Rightarrow>
             let img = transposed X
             in Inr (self1\<lparr>self_ax := Some img\<rparr>, img))"

subsection \<open>\<^verbatim>\<open>Julia.generate\<close> (lines 73--102)\<close>

text \<open>Lines 77--91: the sampling grid, the angle sequence and the empty axes.\<close>

definition generate_setup :: "('f, 'c) arith \<Rightarrow> 'f julia \<Rightarrow> error + 'f julia" where
  "generate_setup ar self =
     (case py_add ar (x_start self) (width self) of
        Inl e \<Rightarrow> Inl e
      | Inr x_stop \<Rightarrow>
     (case py_mul ar (width self) (PyInt (density self)) of
        Inl e \<Rightarrow> Inl e
      | Inr x_num \<Rightarrow>
     (case linspace ar (x_start self) x_stop x_num of
        Inl e \<Rightarrow> Inl e
      | Inr re \<Rightarrow>
     (case py_add ar (y_start self) (height self) of
        Inl e \<Rightarrow> Inl e
      | Inr y_stop \<Rightarrow>
     (case py_mul ar (height self) (PyInt (density self)) of
        Inl e \<Rightarrow> Inl e
      | Inr y_num \<Rightarrow>
     (case linspace ar (y_start self) y_stop y_num of
        Inl e \<Rightarrow> Inl e
      | Inr im \<Rightarrow>
     (case linspace ar (PyInt 0) (PyFloat (f_two_pi ar)) (PyInt (frames self)) of
        Inl e \<Rightarrow> Inl e
      | Inr a \<Rightarrow>
          Inr (self\<lparr>self_re := Some re, self_im := Some im, self_a := Some a,
                    self_ax := None\<rparr>))))))))"

text \<open>
  The animation writer (\<^verbatim>\<open>FuncAnimation\<close> and \<^verbatim>\<open>anim.save\<close>) is an external
  collaborator: which frame indices it passes to \<^verbatim>\<open>animate\<close>, and how often, is its
  own business. \<open>animate_calls ar self is\<close> is the effect of the calls
  \<^verbatim>\<open>animate(i)\<close> for the indices \<open>is\<close> in order, up to the first error, with the
  arrays emitted. The statements below hold for every sequence of indices.
\<close>

fun animate_calls ::
  "('f, 'c) arith \<Rightarrow> 'f julia \<Rightarrow> nat list \<Rightarrow> error + 'f julia \<times> 'f ndarray list" where
  "animate_calls ar self [] = Inr (self, [])"
| "animate_calls ar self (i # is) =
     (case animate ar self i of
        Inl e \<Rightarrow> Inl e
      | Inr (self', img) \<Rightarrow>
          (case animate_calls ar self' is of
             Inl e \<Rightarrow> Inl e
           | Inr (self'', imgs) \<Rightarrow> Inr (self'', img # imgs)))"

text \<open>
  \<open>generate ar calls self\<close>: the setup, then the calls of \<^verbatim>\<open>animate\<close> the writer
  makes, given as the parameter \<open>calls\<close>.
\<close>

definition generate ::
  "('f, 'c) arith \<Rightarrow> nat list \<Rightarrow> 'f julia \<Rightarrow> error + 'f julia \<times> 'f ndarray list" where
  "generate ar calls self =
     (case generate_setup ar self of
        Inl e \<Rightarrow> Inl e
      | Inr self' \<Rightarrow> animate_calls ar self' calls)"

subsection \<open>Two arithmetics for concrete inputs\<close>

text \<open>
  Exact arithmetic over the reals, with every allocation succeeding. It never raises,
  and it agrees with the doubles of the program wherever every intermediate value is
  exactly representable, as for the small integers used below.
\<close>

definition exact_arith :: "(real, complex) arith" where
  "exact_arith =
     \<lparr>complex_of = Complex,
      c_pow2 = (\<lambda>z. Inr (z\<^sup>2)),
      c_add = (\<lambda>z w. z + w),
      c_abs = (\<lambda>z. Inr (cmod z)),
      f_gt4 = (\<lambda>x. x > 4),
      f_of_nat = real,
      f_of_int = (\<lambda>n. Inr (of_int n)),
      f_add = (\<lambda>x y. x + y),
      f_sub = (\<lambda>x y. x - y),
      f_mul = (\<lambda>x y. x * y),
      f_div = (\<lambda>x y. x / y),
      f_is_zero = (\<lambda>x. x = 0),
      f_cos = cos,
      f_sin = sin,
      f_two_pi = 2 * pi,
      f_alloc = (\<lambda>n. None)\<rparr>"


text \<open>An arithmetic that never raises.\<close>

definition raises_nothing :: "('f, 'c) arith \<Rightarrow> bool" where
  "raises_nothing ar \<longleftrightarrow>
     (\<forall>z. \<not> isl (c_pow2 ar z)) \<and> (\<forall>z. \<not> isl (c_abs ar z)) \<and>
     (\<forall>n. \<not> isl (f_of_int ar n)) \<and> (\<forall>n. f_alloc ar n = None)"

subsection \<open>Facts about the evaluator in exact arithmetic\<close>

lemma cmod_gt_4_iff: "cmod z > 4 \<longleftrightarrow> (Re z)\<^sup>2 + (Im z)\<^sup>2 > 16"
proof -
  have "cmod z > 4 \<longleftrightarrow> (cmod z)\<^sup>2 > 4\<^sup>2"
  proof
    assume "4 < cmod z"
    then show "4\<^sup>2 < (cmod z)\<^sup>2" by (intro power_strict_mono) simp_all
  next
    assume "4\<^sup>2 < (cmod z)\<^sup>2"
    then show "4 < cmod z" by (rule power2_less_imp_less) simp
  qed
  then show ?thesis by (simp add: cmod_power2)
qed

lemma julia_loop_neg: "julia_loop (- z) c t is = julia_loop z c t is"
  by (cases "is") simp_all

lemma julia_quadratic_empty_range:
  "thr < 1 \<Longrightarrow> julia_quadratic zx zy cx cy thr = thr - 1"
  by (simp add: julia_quadratic_def)

subsection \<open>Facts about the evaluator over an arbitrary arithmetic\<close>

lemma julia_loop_fp_Some_mem:
  "julia_loop_fp ar z c t is = Inr (Some i) \<Longrightarrow> i \<in> set is"
  by (induction "is" arbitrary: z t) (auto simp: Let_def split: sum.splits if_splits)

lemma julia_loop_fp_error:
  "julia_loop_fp ar z c t is = Inl e \<Longrightarrow>
     (\<exists>w. c_pow2 ar w = Inl e) \<or> (\<exists>w. c_abs ar w = Inl e)"
  by (induction "is" arbitrary: z t) (auto simp: Let_def split: sum.splits if_splits)

lemma julia_loop_fp_total:
  assumes "\<forall>w. \<not> isl (c_pow2 ar w)" and "\<forall>w. \<not> isl (c_abs ar w)"
  shows "\<exists>r. julia_loop_fp ar z c t is = Inr r"
proof (cases "julia_loop_fp ar z c t is")
  case (Inl e)
  from julia_loop_fp_error [OF this] assms show ?thesis
    by (metis sum.disc(1))
next
  case (Inr r)
  then show ?thesis by blast
qed

lemma julia_loop_fp_first:
  assumes "c_pow2 ar z = Inr p" and "c_abs ar (c_add ar p c) = Inr m" and "f_gt4 ar m"
  shows "julia_loop_fp ar z c t (i # rest) = Inr (Some i)"
  using assms by simp

lemma julia_loop_fp_first_only:
  assumes "julia_loop_fp ar z c t (i # rest) = Inr (Some i)" and "i \<notin> set rest"
  shows "\<exists>p m. c_pow2 ar z = Inr p \<and> c_abs ar (c_add ar p c) = Inr m \<and> f_gt4 ar m"
proof -
  from assms(1) obtain p m where p: "c_pow2 ar z = Inr p"
    and m: "c_abs ar (c_add ar p c) = Inr m"
    by (auto simp: Let_def split: sum.splits)
  have "f_gt4 ar m"
  proof (rule ccontr)
    assume "\<not> f_gt4 ar m"
    with assms(1) p m
    have "julia_loop_fp ar (c_add ar p c) c (f_add ar t m) rest = Inr (Some i)"
      by (simp add: Let_def)
    then have "i \<in> set rest" by (rule julia_loop_fp_Some_mem)
    with assms(2) show False by contradiction
  qed
  with p m show ?thesis by blast
qed

lemma orbit_fp_shift:
  "c_pow2 ar z = Inr p \<Longrightarrow> orbit_fp ar (c_add ar p c) c k = orbit_fp ar z c (Suc k)"
  by (induction k) simp_all

lemma julia_loop_fp_None:
  assumes "\<forall>k \<in> {1..length is}.
      \<exists>zk m. orbit_fp ar z c k = Inr zk \<and> c_abs ar zk = Inr m \<and> \<not> f_gt4 ar m"
  shows "julia_loop_fp ar z c t is = Inr None"
  using assms
proof (induction "is" arbitrary: z t)
  case Nil
  show ?case by simp
next
  case (Cons i rest)
  from Cons.prems [rule_format, of 1] obtain z1 m where
    z1: "orbit_fp ar z c 1 = Inr z1" and m: "c_abs ar z1 = Inr m" and small: "\<not> f_gt4 ar m"
    by auto
  from z1 obtain p where p: "c_pow2 ar z = Inr p" and z1_eq: "z1 = c_add ar p c"
    by (auto split: sum.splits)
  have "\<forall>k \<in> {1..length rest}.
      \<exists>zk m. orbit_fp ar z1 c k = Inr zk \<and> c_abs ar zk = Inr m \<and> \<not> f_gt4 ar m"
  proof
    fix k assume "k \<in> {1..length rest}"
    then have "Suc k \<in> {1..length (i # rest)}" by simp
    from Cons.prems [rule_format, OF this]
    show "\<exists>zk m. orbit_fp ar z1 c k = Inr zk \<and> c_abs ar zk = Inr m \<and> \<not> f_gt4 ar m"
      by (simp only: z1_eq orbit_fp_shift [OF p])
  qed
  from Cons.IH [OF this] have "julia_loop_fp ar z1 c (f_add ar t m) rest = Inr None" .
  with p m small z1_eq show ?case by (simp add: Let_def)
qed

lemma exact_arith_fields:
  "complex_of exact_arith = Complex"
  "c_pow2 exact_arith z = Inr (z\<^sup>2)"
  "c_add exact_arith z w = z + w"
  "c_abs exact_arith z = Inr (cmod z)"
  "f_gt4 exact_arith x \<longleftrightarrow> x > 4"
  "f_of_nat exact_arith n = real n"
  "f_of_int exact_arith k = Inr (of_int k)"
  "f_add exact_arith x y = x + y"
  "f_sub exact_arith x y = x - y"
  "f_mul exact_arith x y = x * y"
  "f_div exact_arith x y = x / y"
  "f_is_zero exact_arith x \<longleftrightarrow> x = 0"
  "f_cos exact_arith = cos"
  "f_sin exact_arith = sin"
  "f_two_pi exact_arith = 2 * pi"
  "f_alloc exact_arith n = None"
  by (simp_all add: exact_arith_def)


lemma raises_nothing_exact: "raises_nothing exact_arith"
  by (simp add: raises_nothing_def exact_arith_fields)

lemma julia_loop_fp_exact:
  "julia_loop_fp exact_arith z c t is = Inr (julia_loop z c t is)"
  by (induction "is" arbitrary: z t) (simp_all add: exact_arith_fields Let_def)

lemma julia_quadratic_fp_exact:
  "julia_quadratic_fp exact_arith zx zy cx cy thr = Inr (julia_quadratic zx zy cx cy thr)"
  by (simp add: julia_quadratic_fp_def julia_quadratic_def julia_loop_fp_exact
        exact_arith_fields split: option.splits)

lemma orbit_fp_zero: "orbit_fp exact_arith (Complex 0 0) (Complex 0 0) k = Inr 0"
  by (induction k) (simp_all add: exact_arith_fields complex_eq_iff)

lemma orbit_fp_one: "orbit_fp exact_arith (Complex 1 0) (Complex 0 0) k = Inr 1"
  by (induction k) (simp_all add: exact_arith_fields complex_eq_iff)

lemma julia_quadratic_fp_cases:
  "julia_quadratic_fp ar zx zy cx cy thr =
     (case julia_loop_fp ar (complex_of ar zx zy) (complex_of ar cx cy) (f_of_nat ar 0)
             [0..thr - 1] of
        Inl e \<Rightarrow> Inl e
      | Inr (Some i) \<Rightarrow> Inr i
      | Inr None \<Rightarrow> Inr (thr - 1))"
  by (simp add: julia_quadratic_fp_def)

lemma julia_quadratic_fp_bounds:
  assumes "1 \<le> thr" and "julia_quadratic_fp ar zx zy cx cy thr = Inr v"
  shows "0 \<le> v \<and> v \<le> thr - 1"
proof (cases "julia_loop_fp ar (complex_of ar zx zy) (complex_of ar cx cy) (f_of_nat ar 0)
                [0..thr - 1]")
  case (Inl e)
  with assms(2) show ?thesis by (simp add: julia_quadratic_fp_cases)
next
  case (Inr r)
  show ?thesis
  proof (cases r)
    case None
    with Inr assms show ?thesis by (simp add: julia_quadratic_fp_cases)
  next
    case (Some i)
    from Inr have "julia_loop_fp ar (complex_of ar zx zy) (complex_of ar cx cy) (f_of_nat ar 0)
        [0..thr - 1] = Inr (Some i)"
      by (simp only: Some)
    then have "i \<in> set [0..thr - 1]" by (rule julia_loop_fp_Some_mem)
    moreover from Some Inr assms(2) have "v = i" by (simp add: julia_quadratic_fp_cases)
    ultimately show ?thesis by simp
  qed
qed


lemma julia_quadratic_fp_total:
  assumes "\<forall>w. \<not> isl (c_pow2 ar w)" and "\<forall>w. \<not> isl (c_abs ar w)"
  shows "\<exists>v. julia_quadratic_fp ar zx zy cx cy thr = Inr v"
proof -
  from julia_loop_fp_total [OF assms] obtain r where
    "julia_loop_fp ar (complex_of ar zx zy) (complex_of ar cx cy) (f_of_nat ar 0)
       [0..thr - 1] = Inr r"
    by blast
  then show ?thesis
    by (cases r) (simp_all add: julia_quadratic_fp_cases)
qed





subsection \<open>Facts about \<open>linspace\<close> and the setup\<close>

lemma length_linspace_samples: "length (linspace_samples ar a b n) = n"
  by (simp add: linspace_samples_def Let_def)

lemma last_linspace_samples:
  assumes "2 \<le> n"
  shows "last (linspace_samples ar a b n) = b"
proof -
  have "last (ys[n - 1 := b]) = b" if "length ys = n" for ys :: "'a list"
  proof -
    from that assms have "ys[n - 1 := b] \<noteq> []" by auto
    then have "last (ys[n - 1 := b]) = ys[n - 1 := b] ! (length (ys[n - 1 := b]) - 1)"
      by (rule last_conv_nth)
    with that assms show ?thesis by simp
  qed
  with assms show ?thesis
    by (simp add: linspace_samples_def Let_def)
qed

lemma nth_last_linspace_samples:
  assumes "2 \<le> n"
  shows "linspace_samples ar a b n ! (n - 1) = b"
  using assms by (simp add: linspace_samples_def Let_def)


lemma to_float_error: "to_float ar x = Inl e \<Longrightarrow> \<exists>k. f_of_int ar k = Inl e"
  by (cases x) auto

lemma py_add_error: "py_add ar x y = Inl e \<Longrightarrow> \<exists>k. f_of_int ar k = Inl e"
  by (cases x; cases y) (auto split: sum.splits)


lemma py_mul_float: "py_mul ar (PyFloat x) y = Inr r \<Longrightarrow> \<exists>v. r = PyFloat v"
  by (cases y) (auto split: sum.splits)

lemma py_mul_int: "py_mul ar (PyInt a) (PyInt b) = Inr (PyInt (a * b))"
  by simp

lemma linspace_float: "linspace ar start stop (PyFloat x) = Inl TypeError"
  by (simp add: linspace_def)

lemma linspace_negative: "n < 0 \<Longrightarrow> linspace ar start stop (PyInt n) = Inl ValueError"
  by (simp add: linspace_def)


lemma linspace_Inr:
  assumes "linspace ar start stop num = Inr ys"
  shows "\<exists>n a b. num = PyInt n \<and> 0 \<le> n \<and> to_float ar start = Inr a \<and>
    to_float ar stop = Inr b \<and> ys = linspace_samples ar a b (nat n)"
  using assms
  by (auto simp: linspace_def split: pynum.splits if_splits sum.splits option.splits)

lemma linspace_int:
  assumes "0 \<le> n" and "to_float ar start = Inr a" and "to_float ar stop = Inr b"
    and "f_alloc ar (nat n) = None"
  shows "linspace ar start stop (PyInt n) = Inr (linspace_samples ar a b (nat n))"
  using assms by (simp add: linspace_def)

lemma init_fields:
  "x_start (init conf) = x_start conf" "y_start (init conf) = y_start conf"
  "width (init conf) = width conf" "height (init conf) = height conf"
  "init_r (init conf) = init_r conf" "density (init conf) = density conf"
  "threshold (init conf) = threshold conf" "frames (init conf) = frames conf"
  "self_re (init conf) = None" "self_im (init conf) = None" "self_a (init conf) = None"
  by (simp_all add: init_def)




lemma generate_setup_Inr:
  assumes "generate_setup ar self = Inr s"
  shows "\<exists>w h x_stop y_stop sx ex sy ey a0.
    width self = PyInt w \<and> height self = PyInt h \<and>
    0 \<le> w * density self \<and> 0 \<le> h * density self \<and> 0 \<le> frames self \<and>
    py_add ar (x_start self) (width self) = Inr x_stop \<and>
    py_add ar (y_start self) (height self) = Inr y_stop \<and>
    to_float ar (x_start self) = Inr sx \<and> to_float ar x_stop = Inr ex \<and>
    to_float ar (y_start self) = Inr sy \<and> to_float ar y_stop = Inr ey \<and>
    f_of_int ar 0 = Inr a0 \<and>
    s = self\<lparr>self_re := Some (linspace_samples ar sx ex (nat (w * density self))),
             self_im := Some (linspace_samples ar sy ey (nat (h * density self))),
             self_a := Some (linspace_samples ar a0 (f_two_pi ar) (nat (frames self))),
             self_ax := None\<rparr>"
proof -
  from assms obtain x_stop x_num re y_stop y_num im a where
    xs: "py_add ar (x_start self) (width self) = Inr x_stop"
    and xn: "py_mul ar (width self) (PyInt (density self)) = Inr x_num"
    and re: "linspace ar (x_start self) x_stop x_num = Inr re"
    and ys: "py_add ar (y_start self) (height self) = Inr y_stop"
    and yn: "py_mul ar (height self) (PyInt (density self)) = Inr y_num"
    and im: "linspace ar (y_start self) y_stop y_num = Inr im"
    and a: "linspace ar (PyInt 0) (PyFloat (f_two_pi ar)) (PyInt (frames self)) = Inr a"
    and s: "s = self\<lparr>self_re := Some re, self_im := Some im, self_a := Some a, self_ax := None\<rparr>"
    by (auto simp: generate_setup_def split: sum.splits)
  from linspace_Inr [OF re] obtain n sx ex where
    n: "x_num = PyInt n" "0 \<le> n" and sx: "to_float ar (x_start self) = Inr sx"
    and ex: "to_float ar x_stop = Inr ex" and re_eq: "re = linspace_samples ar sx ex (nat n)"
    by blast
  from linspace_Inr [OF im] obtain k sy ey where
    k: "y_num = PyInt k" "0 \<le> k" and sy: "to_float ar (y_start self) = Inr sy"
    and ey: "to_float ar y_stop = Inr ey" and im_eq: "im = linspace_samples ar sy ey (nat k)"
    by blast
  from linspace_Inr [OF a] obtain a0 where
    fr: "0 \<le> frames self" and a0: "f_of_int ar 0 = Inr a0"
    and a_eq: "a = linspace_samples ar a0 (f_two_pi ar) (nat (frames self))"
    by auto
  from xn n obtain w where w: "width self = PyInt w" and nw: "n = w * density self"
    by (cases "width self") (auto split: sum.splits)
  from yn k obtain h where h: "height self = PyInt h" and kh: "k = h * density self"
    by (cases "height self") (auto split: sum.splits)
  from w h n k nw kh fr xs ys sx ex sy ey a0 s re_eq im_eq a_eq show ?thesis
    by blast
qed

lemma generate_setup_float_width:
  assumes "width self = PyFloat x"
  shows "isl (generate_setup ar self)"
proof (cases "generate_setup ar self")
  case (Inl e)
  then show ?thesis by simp
next
  case (Inr s)
  from generate_setup_Inr [OF this] assms show ?thesis by auto
qed

lemma generate_setup_float_height:
  assumes "height self = PyFloat x"
  shows "isl (generate_setup ar self)"
proof (cases "generate_setup ar self")
  case (Inl e)
  then show ?thesis by simp
next
  case (Inr s)
  from generate_setup_Inr [OF this] assms show ?thesis by auto
qed

lemma generate_setup_negative:
  assumes "(\<exists>w. width self = PyInt w \<and> w * density self < 0) \<or>
    (\<exists>h. height self = PyInt h \<and> h * density self < 0) \<or> frames self < 0"
  shows "isl (generate_setup ar self)"
proof (cases "generate_setup ar self")
  case (Inl e)
  then show ?thesis by simp
next
  case (Inr s)
  from generate_setup_Inr [OF this] assms show ?thesis by auto
qed

lemma py_add_total:
  assumes "\<forall>k. \<not> isl (f_of_int ar k)"
  shows "\<exists>r. py_add ar x y = Inr r"
proof (cases "py_add ar x y")
  case (Inl e)
  from py_add_error [OF this] assms show ?thesis by (metis sum.disc(1))
next
  case (Inr r)
  then show ?thesis by blast
qed

lemma to_float_total:
  assumes "\<forall>k. \<not> isl (f_of_int ar k)"
  shows "\<exists>r. to_float ar x = Inr r"
proof (cases "to_float ar x")
  case (Inl e)
  from to_float_error [OF this] assms show ?thesis by (metis sum.disc(1))
next
  case (Inr r)
  then show ?thesis by blast
qed

lemma generate_setup_succeeds:
  assumes conv: "\<forall>k. \<not> isl (f_of_int ar k)" and mem: "\<forall>n. f_alloc ar n = None"
    and w: "width self = PyInt w" and h: "height self = PyInt h"
    and nonneg: "0 \<le> w * density self" "0 \<le> h * density self" "0 \<le> frames self"
  shows "\<exists>s. generate_setup ar self = Inr s"
proof -
  from py_add_total [OF conv] obtain x_stop y_stop where
    xs: "py_add ar (x_start self) (width self) = Inr x_stop"
    and ys: "py_add ar (y_start self) (height self) = Inr y_stop"
    by blast
  from to_float_total [OF conv] obtain sx ex sy ey a0 where
    f: "to_float ar (x_start self) = Inr sx" "to_float ar x_stop = Inr ex"
      "to_float ar (y_start self) = Inr sy" "to_float ar y_stop = Inr ey"
      "to_float ar (PyInt 0) = Inr a0"
    by metis
  have "linspace ar (x_start self) x_stop (PyInt (w * density self)) =
      Inr (linspace_samples ar sx ex (nat (w * density self)))"
    using nonneg(1) f(1,2) mem by (intro linspace_int) simp_all
  moreover have "linspace ar (y_start self) y_stop (PyInt (h * density self)) =
      Inr (linspace_samples ar sy ey (nat (h * density self)))"
    using nonneg(2) f(3,4) mem by (intro linspace_int) simp_all
  moreover have "linspace ar (PyInt 0) (PyFloat (f_two_pi ar)) (PyInt (frames self)) =
      Inr (linspace_samples ar a0 (f_two_pi ar) (nat (frames self)))"
    using nonneg(3) f(5) mem by (intro linspace_int) simp_all
  ultimately show ?thesis
    using xs ys w h by (simp add: generate_setup_def)
qed

subsection \<open>Facts about the double loop\<close>

lemma fold_update_upt:
  "k \<le> length xs \<Longrightarrow> fold (\<lambda>i ys. ys[i := g i]) [0..<k] xs = map g [0..<k] @ drop k xs"
proof (induction k)
  case 0
  show ?case by simp
next
  case (Suc k)
  then have k: "k < length xs" by simp
  have "fold (\<lambda>i ys. ys[i := g i]) [0..<Suc k] xs = (map g [0..<k] @ drop k xs)[k := g k]"
    using Suc by simp
  also have "\<dots> = map g [0..<k] @ (drop k xs)[0 := g k]"
    by (simp add: list_update_append)
  also have "(drop k xs)[0 := g k] = g k # drop (Suc k) xs"
    using k by (simp add: Cons_nth_drop_Suc [symmetric])
  finally show ?case by simp
qed

lemma escape_cell_total:
  assumes "raises_nothing ar"
  shows "\<exists>v. escape_cell ar zx zy cx cy thr = Inr v"
proof -
  from assms have p: "\<forall>w. \<not> isl (c_pow2 ar w)" and a: "\<forall>w. \<not> isl (c_abs ar w)"
    and c: "\<forall>k. \<not> isl (f_of_int ar k)"
    by (simp_all add: raises_nothing_def)
  from julia_quadratic_fp_total [OF p a] obtain v where
    "julia_quadratic_fp ar zx zy cx cy thr = Inr v" ..
  moreover from c obtain x where "f_of_int ar v = Inr x"
    by (cases "f_of_int ar v") (metis sum.disc(1), blast)
  ultimately show ?thesis by (simp add: escape_cell_def)
qed

lemma escape_cell_Inr:
  assumes "escape_cell ar zx zy cx cy thr = Inr x"
  shows "\<exists>v. julia_quadratic_fp ar zx zy cx cy thr = Inr v \<and> f_of_int ar v = Inr x"
  using assms by (auto simp: escape_cell_def split: sum.splits)

lemma inner_loop_Inr:
  assumes "inner_loop ar re im cx cy thr i js X = Inr X'" and "i < length (data X)"
  shows "(\<forall>j \<in> set js. \<exists>v. escape_cell ar (re ! i) (im ! j) cx cy thr = Inr v) \<and>
    shape X' = shape X \<and>
    data X' = (data X)[i := fold (\<lambda>j row. row[j := projr (escape_cell ar (re ! i) (im ! j) cx cy thr)])
                              js (data X ! i)]"
  using assms
proof (induction js arbitrary: X)
  case Nil
  then show ?case by simp
next
  case (Cons j js)
  from Cons.prems(1) obtain v where v: "escape_cell ar (re ! i) (im ! j) cx cy thr = Inr v"
    and rest: "inner_loop ar re im cx cy thr i js (setitem X i j v) = Inr X'"
    by (auto split: sum.splits)
  have "i < length (data (setitem X i j v))"
    using Cons.prems(2) by (simp add: setitem_def)
  from Cons.IH [OF rest this] v Cons.prems(2) show ?case
    by (simp add: setitem_def)
qed

lemma inner_loop_total:
  assumes "\<forall>j \<in> set js. \<exists>v. escape_cell ar (re ! i) (im ! j) cx cy thr = Inr v"
  shows "\<exists>X'. inner_loop ar re im cx cy thr i js X = Inr X'"
  using assms by (induction js arbitrary: X) auto

lemma inner_loop_row:
  assumes "inner_loop ar re im cx cy thr i [0..<length im] X = Inr X'"
    and "i < length (data X)" and "length (data X ! i) = length im"
  shows "(\<forall>j < length im. \<exists>v. escape_cell ar (re ! i) (im ! j) cx cy thr = Inr v) \<and>
    shape X' = shape X \<and>
    data X' = (data X)[i := map (\<lambda>j. projr (escape_cell ar (re ! i) (im ! j) cx cy thr))
                              [0..<length im]]"
  using inner_loop_Inr [OF assms(1,2)] assms(3) by (simp add: fold_update_upt)

lemma outer_loop_Inr:
  assumes "outer_loop ar re im cx cy thr is X = Inr X'"
    and "\<forall>i \<in> set is. i < length (data X)"
    and "\<forall>row \<in> set (data X). length row = length im"
  shows "(\<forall>i \<in> set is. \<forall>j < length im. \<exists>v. escape_cell ar (re ! i) (im ! j) cx cy thr = Inr v) \<and>
    shape X' = shape X \<and>
    data X' = fold (\<lambda>i rows. rows[i := map (\<lambda>j. projr (escape_cell ar (re ! i) (im ! j) cx cy thr))
                                        [0..<length im]])
                is (data X)"
  using assms
proof (induction "is" arbitrary: X)
  case Nil
  then show ?case by simp
next
  case (Cons i "is")
  from Cons.prems(1) obtain X1 where
    inner: "inner_loop ar re im cx cy thr i [0..<length im] X = Inr X1"
    and rest: "outer_loop ar re im cx cy thr is X1 = Inr X'"
    by (auto split: sum.splits)
  from Cons.prems have i: "i < length (data X)" by simp
  with Cons.prems have row: "length (data X ! i) = length im" by simp
  from inner_loop_row [OF inner i row] have
    cells: "\<forall>j < length im. \<exists>v. escape_cell ar (re ! i) (im ! j) cx cy thr = Inr v"
    and sh: "shape X1 = shape X"
    and dX: "data X1 = (data X)[i := map (\<lambda>j. projr (escape_cell ar (re ! i) (im ! j) cx cy thr))
                                      [0..<length im]]"
    by blast+
  have "\<forall>k \<in> set is. k < length (data X1)"
    using Cons.prems by (simp add: dX)
  moreover have "\<forall>row \<in> set (data X1). length row = length im"
    using Cons.prems(3) by (auto simp: dX dest!: set_update_subset_insert [THEN subsetD])
  ultimately have "(\<forall>i \<in> set is. \<forall>j < length im.
        \<exists>v. escape_cell ar (re ! i) (im ! j) cx cy thr = Inr v) \<and>
    shape X' = shape X1 \<and>
    data X' = fold (\<lambda>i rows. rows[i := map (\<lambda>j. projr (escape_cell ar (re ! i) (im ! j) cx cy thr))
                                        [0..<length im]])
                is (data X1)"
    by (rule Cons.IH [OF rest])
  with cells sh dX show ?case by simp
qed

lemma outer_loop_total:
  assumes "\<forall>i \<in> set is. \<forall>j < length im. \<exists>v. escape_cell ar (re ! i) (im ! j) cx cy thr = Inr v"
  shows "\<exists>X'. outer_loop ar re im cx cy thr is X = Inr X'"
  using assms
proof (induction "is" arbitrary: X)
  case Nil
  show ?case by simp
next
  case (Cons i "is")
  from Cons.prems have "\<forall>j \<in> set [0..<length im].
      \<exists>v. escape_cell ar (re ! i) (im ! j) cx cy thr = Inr v"
    by simp
  from inner_loop_total [OF this] obtain X1 where
    "inner_loop ar re im cx cy thr i [0..<length im] X = Inr X1" ..
  moreover from Cons.prems have "\<exists>X'. outer_loop ar re im cx cy thr is X1 = Inr X'"
    by (intro Cons.IH) simp
  ultimately show ?case by auto
qed

lemma outer_loop_empty:
  assumes "outer_loop ar re im cx cy thr [0..<length re] (empty_cells ar (length re, length im)) = Inr X"
  shows "(\<forall>k < length re. \<forall>j < length im.
      \<exists>v. escape_cell ar (re ! k) (im ! j) cx cy thr = Inr v) \<and>
    shape X = (length re, length im) \<and>
    data X = map (\<lambda>k. map (\<lambda>j. projr (escape_cell ar (re ! k) (im ! j) cx cy thr)) [0..<length im])
               [0..<length re]"
proof -
  let ?E = "empty_cells ar (length re, length im)"
  let ?row = "\<lambda>k. map (\<lambda>j. projr (escape_cell ar (re ! k) (im ! j) cx cy thr)) [0..<length im]"
  have len: "length (data ?E) = length re"
    by (simp add: empty_cells_def)
  have "\<forall>i \<in> set [0..<length re]. i < length (data ?E)"
    by (simp add: len)
  moreover have "\<forall>row \<in> set (data ?E). length row = length im"
    by (simp add: empty_cells_def)
  ultimately have r: "(\<forall>i \<in> set [0..<length re]. \<forall>j < length im.
        \<exists>v. escape_cell ar (re ! i) (im ! j) cx cy thr = Inr v) \<and>
      shape X = shape ?E \<and>
      data X = fold (\<lambda>i rows. rows[i := ?row i]) [0..<length re] (data ?E)"
    by (rule outer_loop_Inr [OF assms])
  have "fold (\<lambda>i rows. rows[i := ?row i]) [0..<length re] (data ?E) =
      map ?row [0..<length re] @ drop (length re) (data ?E)"
    by (rule fold_update_upt) (simp add: len)
  also have "\<dots> = map ?row [0..<length re]"
    by (simp add: len)
  finally have "data X = map ?row [0..<length re]"
    using r by (simp only:)
  moreover have "shape X = (length re, length im)"
    using r by (simp add: empty_cells_def)
  moreover have "\<forall>k < length re. \<forall>j < length im.
      \<exists>v. escape_cell ar (re ! k) (im ! j) cx cy thr = Inr v"
    using r by simp
  ultimately show ?thesis by blast
qed

subsection \<open>Facts about \<open>animate\<close>\<close>

lemma escape_grid_ax: "escape_grid ar (self\<lparr>self_ax := ax\<rparr>) i = escape_grid ar self i"
  by (simp add: escape_grid_def split: option.splits sum.splits)

lemma escape_grid_Inr:
  assumes "escape_grid ar self i = Inr X"
    and "self_re self = Some re" and "self_im self = Some im" and "self_a self = Some a"
  shows "i < length a \<and>
    (\<forall>k < length re. \<forall>j < length im.
       \<exists>v. escape_cell ar (re ! k) (im ! j) (fst (frame_constant ar (init_r self) a i))
              (snd (frame_constant ar (init_r self) a i)) (threshold self) = Inr v) \<and>
    shape X = (length re, length im) \<and>
    data X = map (\<lambda>k. map (\<lambda>j. projr (escape_cell ar (re ! k) (im ! j)
                                   (fst (frame_constant ar (init_r self) a i))
                                   (snd (frame_constant ar (init_r self) a i)) (threshold self)))
                        [0..<length im])
               [0..<length re]"
proof -
  obtain cx cy where c: "frame_constant ar (init_r self) a i = (cx, cy)"
    by (cases "frame_constant ar (init_r self) a i")
  from assms c have i: "i < length a"
    and loop: "outer_loop ar re im cx cy (threshold self) [0..<length re]
                 (empty_cells ar (length re, length im)) = Inr X"
    by (auto simp: escape_grid_def np_empty_def Let_def split: if_splits option.splits)
  from outer_loop_empty [OF loop] i c show ?thesis by simp
qed

lemma escape_grid_total:
  assumes "raises_nothing ar"
    and "self_re self = Some re" and "self_im self = Some im" and "self_a self = Some a"
    and "i < length a"
  shows "\<exists>X. escape_grid ar self i = Inr X"
proof -
  obtain cx cy where c: "frame_constant ar (init_r self) a i = (cx, cy)"
    by (cases "frame_constant ar (init_r self) a i")
  have "\<forall>k \<in> set [0..<length re]. \<forall>j < length im.
      \<exists>v. escape_cell ar (re ! k) (im ! j) cx cy (threshold self) = Inr v"
    using escape_cell_total [OF assms(1)] by blast
  from outer_loop_total [OF this] obtain X where
    "outer_loop ar re im cx cy (threshold self) [0..<length re]
       (empty_cells ar (length re, length im)) = Inr X" ..
  moreover from assms(1) have "np_empty ar (length re, length im) =
      Inr (empty_cells ar (length re, length im))"
    by (simp add: np_empty_def raises_nothing_def)
  ultimately show ?thesis
    using assms c by (simp add: escape_grid_def Let_def)
qed

lemma animate_Inr:
  assumes "animate ar self i = Inr (self', img)"
  shows "\<exists>X. escape_grid ar self i = Inr X \<and> img = transposed X \<and>
    self' = self\<lparr>self_ax := Some img\<rparr>"
  using assms by (auto simp: animate_def Let_def escape_grid_ax split: sum.splits)

lemma animate_total:
  assumes "escape_grid ar self i = Inr X"
  shows "animate ar self i = Inr (self\<lparr>self_ax := Some (transposed X)\<rparr>, transposed X)"
  using assms by (simp add: animate_def Let_def escape_grid_ax)

lemma animate_calls_Inr:
  assumes "animate_calls ar self is = Inr (self', imgs)"
  shows "length imgs = length is \<and> (\<exists>ax. self' = self\<lparr>self_ax := ax\<rparr>) \<and>
    (\<forall>n < length is. \<exists>X. escape_grid ar self (is ! n) = Inr X \<and> imgs ! n = transposed X)"
  using assms
proof (induction "is" arbitrary: self self' imgs)
  case Nil
  then have "self' = self\<lparr>self_ax := self_ax self\<rparr>" and imgs: "imgs = []" by simp_all
  then have "\<exists>ax. self' = self\<lparr>self_ax := ax\<rparr>" by blast
  with imgs show ?case by simp
next
  case (Cons i "is")
  from Cons.prems obtain s1 img imgs1 where
    a: "animate ar self i = Inr (s1, img)"
    and r: "animate_calls ar s1 is = Inr (self', imgs1)"
    and imgs: "imgs = img # imgs1"
    by (auto split: sum.splits prod.splits)
  from animate_Inr [OF a] obtain X where
    X: "escape_grid ar self i = Inr X" and img: "img = transposed X"
    and s1: "s1 = self\<lparr>self_ax := Some img\<rparr>"
    by blast
  from Cons.IH [OF r] have len: "length imgs1 = length is"
    and keep: "\<exists>ax. self' = s1\<lparr>self_ax := ax\<rparr>"
    and nth: "\<forall>n < length is. \<exists>X. escape_grid ar s1 (is ! n) = Inr X \<and> imgs1 ! n = transposed X"
    by blast+
  from keep s1 have "\<exists>ax. self' = self\<lparr>self_ax := ax\<rparr>" by auto
  moreover have "\<forall>n < length (i # is).
      \<exists>X. escape_grid ar self ((i # is) ! n) = Inr X \<and> imgs ! n = transposed X"
  proof (intro allI impI)
    fix n assume n: "n < length (i # is)"
    show "\<exists>X. escape_grid ar self ((i # is) ! n) = Inr X \<and> imgs ! n = transposed X"
    proof (cases n)
      case 0
      with X img imgs show ?thesis by simp
    next
      case (Suc m)
      with n nth have "\<exists>X. escape_grid ar s1 (is ! m) = Inr X \<and> imgs1 ! m = transposed X"
        by simp
      with Suc imgs s1 show ?thesis by (simp add: escape_grid_ax)
    qed
  qed
  ultimately show ?case using len imgs by simp
qed

lemma animate_calls_total:
  assumes "raises_nothing ar"
    and "self_re self = Some re" and "self_im self = Some im" and "self_a self = Some a"
    and "\<forall>i \<in> set is. i < length a"
  shows "\<exists>self' imgs. animate_calls ar self is = Inr (self', imgs)"
  using assms(2-)
proof (induction "is" arbitrary: self)
  case Nil
  show ?case by simp
next
  case (Cons i "is")
  from Cons.prems have "i < length a" by simp
  from escape_grid_total [OF assms(1) Cons.prems(1-3) this] obtain X where
    "escape_grid ar self i = Inr X" ..
  then have a: "animate ar self i =
      Inr (self\<lparr>self_ax := Some (transposed X)\<rparr>, transposed X)"
    by (rule animate_total)
  have "\<exists>self' imgs. animate_calls ar (self\<lparr>self_ax := Some (transposed X)\<rparr>) is = Inr (self', imgs)"
    using Cons.prems by (intro Cons.IH) simp_all
  with a show ?case by auto
qed

subsection \<open>Facts about the emitted frames and the whole run\<close>

lemma emitted_cells:
  assumes grid: "escape_grid ar self i = Inr X"
    and re: "self_re self = Some re" and im: "self_im self = Some im" and a: "self_a self = Some a"
  shows "shape X = (length re, length im) \<and>
    shape (transposed X) = (length im, length re) \<and>
    length (data (transposed X)) = length im \<and>
    (\<forall>j < length im. length (data (transposed X) ! j) = length re \<and>
       (\<forall>k < length re. \<exists>v.
          julia_quadratic_fp ar (re ! k) (im ! j) (fst (frame_constant ar (init_r self) a i))
            (snd (frame_constant ar (init_r self) a i)) (threshold self) = Inr v \<and>
          f_of_int ar v = Inr (data (transposed X) ! j ! k) \<and>
          data (transposed X) ! j ! k = data X ! k ! j))"
proof -
  let ?cx = "fst (frame_constant ar (init_r self) a i)"
  let ?cy = "snd (frame_constant ar (init_r self) a i)"
  let ?cell = "\<lambda>k j. escape_cell ar (re ! k) (im ! j) ?cx ?cy (threshold self)"
  from escape_grid_Inr [OF grid re im a] have
    cells: "\<forall>k < length re. \<forall>j < length im. \<exists>v. ?cell k j = Inr v"
    and sh: "shape X = (length re, length im)"
    and dX: "data X = map (\<lambda>k. map (\<lambda>j. projr (?cell k j)) [0..<length im]) [0..<length re]"
    by blast+
  have nth: "data X ! k ! j = projr (?cell k j)" if "k < length re" "j < length im" for k j
    using that by (simp add: dX)
  have tr: "data (transposed X) ! j ! k = data X ! k ! j"
    if "k < length re" "j < length im" for k j
    using that by (simp add: transposed_def sh)
  have "\<exists>v. julia_quadratic_fp ar (re ! k) (im ! j) ?cx ?cy (threshold self) = Inr v \<and>
      f_of_int ar v = Inr (data (transposed X) ! j ! k) \<and>
      data (transposed X) ! j ! k = data X ! k ! j"
    if k: "k < length re" and j: "j < length im" for k j
  proof -
    from cells k j obtain x where x: "?cell k j = Inr x" by blast
    from escape_cell_Inr [OF x] obtain v where
      "julia_quadratic_fp ar (re ! k) (im ! j) ?cx ?cy (threshold self) = Inr v"
      and "f_of_int ar v = Inr x"
      by blast
    moreover from x have "data (transposed X) ! j ! k = x"
      by (simp add: tr [OF k j] nth [OF k j])
    ultimately show ?thesis using tr [OF k j] by simp
  qed
  moreover have "shape (transposed X) = (length im, length re)"
    by (simp add: transposed_def sh)
  moreover have "length (data (transposed X)) = length im"
    by (simp add: transposed_def sh)
  moreover have "length (data (transposed X) ! j) = length re" if "j < length im" for j
    using that by (simp add: transposed_def sh)
  ultimately show ?thesis using sh by blast
qed

lemma single_frame: "length imgs = Suc 0 \<Longrightarrow> imgs = [imgs ! 0]"
  by (cases imgs) simp_all

lemma generate_Inr:
  assumes "generate ar calls self = Inr (self', imgs)"
  shows "\<exists>s. generate_setup ar self = Inr s \<and> animate_calls ar s calls = Inr (self', imgs)"
  using assms by (auto simp: generate_def split: sum.splits)



lemma setup_state:
  assumes "generate_setup ar (init conf) = Inr s"
  shows "\<exists>w h x_stop y_stop sx ex sy ey a0.
    width conf = PyInt w \<and> height conf = PyInt h \<and>
    0 \<le> w * density conf \<and> 0 \<le> h * density conf \<and> 0 \<le> frames conf \<and>
    py_add ar (x_start conf) (width conf) = Inr x_stop \<and>
    py_add ar (y_start conf) (height conf) = Inr y_stop \<and>
    to_float ar (x_start conf) = Inr sx \<and> to_float ar x_stop = Inr ex \<and>
    to_float ar (y_start conf) = Inr sy \<and> to_float ar y_stop = Inr ey \<and>
    f_of_int ar 0 = Inr a0 \<and>
    self_re s = Some (linspace_samples ar sx ex (nat (w * density conf))) \<and>
    self_im s = Some (linspace_samples ar sy ey (nat (h * density conf))) \<and>
    self_a s = Some (linspace_samples ar a0 (f_two_pi ar) (nat (frames conf))) \<and>
    init_r s = init_r conf \<and> threshold s = threshold conf"
proof -
  from generate_setup_Inr [OF assms] obtain w h x_stop y_stop sx ex sy ey a0 where
    "width (init conf) = PyInt w" "height (init conf) = PyInt h"
    "0 \<le> w * density (init conf)" "0 \<le> h * density (init conf)" "0 \<le> frames (init conf)"
    "py_add ar (x_start (init conf)) (width (init conf)) = Inr x_stop"
    "py_add ar (y_start (init conf)) (height (init conf)) = Inr y_stop"
    "to_float ar (x_start (init conf)) = Inr sx" "to_float ar x_stop = Inr ex"
    "to_float ar (y_start (init conf)) = Inr sy" "to_float ar y_stop = Inr ey"
    "f_of_int ar 0 = Inr a0"
    "s = (init conf)\<lparr>self_re := Some (linspace_samples ar sx ex (nat (w * density (init conf)))),
             self_im := Some (linspace_samples ar sy ey (nat (h * density (init conf)))),
             self_a := Some (linspace_samples ar a0 (f_two_pi ar) (nat (frames (init conf)))),
             self_ax := None\<rparr>"
    by blast
  then show ?thesis
    by (simp add: init_fields)
qed

lemma run_succeeds:
  assumes ar: "raises_nothing ar"
    and w: "width conf = PyInt w" and h: "height conf = PyInt h"
    and nonneg: "0 \<le> w * density conf" "0 \<le> h * density conf" "0 \<le> frames conf"
    and calls: "\<forall>i \<in> set calls. i < nat (frames conf)"
  shows "\<exists>s self' imgs re im a.
    generate_setup ar (init conf) = Inr s \<and>
    generate ar calls (init conf) = Inr (self', imgs) \<and>
    self_re s = Some re \<and> self_im s = Some im \<and> self_a s = Some a \<and>
    length re = nat (w * density conf) \<and> length im = nat (h * density conf) \<and>
    init_r s = init_r conf \<and> threshold s = threshold conf \<and>
    length imgs = length calls \<and>
    (\<forall>n < length calls. \<exists>X. escape_grid ar s (calls ! n) = Inr X \<and> imgs ! n = transposed X)"
proof -
  from ar have conv: "\<forall>k. \<not> isl (f_of_int ar k)" and mem: "\<forall>n. f_alloc ar n = None"
    by (simp_all add: raises_nothing_def)
  have "\<exists>s. generate_setup ar (init conf) = Inr s"
    using conv mem by (rule generate_setup_succeeds [where w = w and h = h])
      (simp_all add: init_fields w h nonneg)
  then obtain s where s: "generate_setup ar (init conf) = Inr s" ..
  from setup_state [OF s] w h obtain re im a where
    re: "self_re s = Some re" and im: "self_im s = Some im" and a: "self_a s = Some a"
    and lens: "length re = nat (w * density conf)" "length im = nat (h * density conf)"
      "length a = nat (frames conf)"
    and par: "init_r s = init_r conf" "threshold s = threshold conf"
    by (auto simp: length_linspace_samples)
  from calls lens have "\<forall>i \<in> set calls. i < length a" by simp
  from animate_calls_total [OF ar re im a this] obtain self' imgs where
    run: "animate_calls ar s calls = Inr (self', imgs)"
    by blast
  from animate_calls_Inr [OF run] have "length imgs = length calls"
    and "\<forall>n < length calls. \<exists>X. escape_grid ar s (calls ! n) = Inr X \<and> imgs ! n = transposed X"
    by blast+
  moreover from s run have "generate ar calls (init conf) = Inr (self', imgs)"
    by (simp add: generate_def)
  ultimately show ?thesis
    using s re im a lens par by blast
qed

subsection \<open>Facts about the angle sequence and the frame constant\<close>

text \<open>
  In every arithmetic the angle sequence of at least two frames ends exactly at the float
  \<open>2 * np.pi\<close>, since \<open>linspace\<close> overwrites its last sample with \<open>stop\<close>.
\<close>

lemma angle_sequence_end:
  assumes "generate_setup ar (init conf) = Inr s" and "2 \<le> frames conf"
  shows "\<exists>a. self_a s = Some a \<and> length a = nat (frames conf) \<and> last a = f_two_pi ar"
proof -
  from setup_state [OF assms(1)] obtain a0 where
    "self_a s = Some (linspace_samples ar a0 (f_two_pi ar) (nat (frames conf)))"
    by blast
  moreover from assms(2) have "2 \<le> nat (frames conf)" by simp
  ultimately show ?thesis
    by (simp add: length_linspace_samples last_linspace_samples)
qed

text \<open>
  In exact arithmetic the constant of every frame lies on the circle of radius \<open>r\<close>.
  Whether the doubles of the program satisfy this equality depends on their rounding.
\<close>

lemma frame_constant_exact_circle:
  "(fst (frame_constant exact_arith r a i))\<^sup>2 + (snd (frame_constant exact_arith r a i))\<^sup>2 = r\<^sup>2"
proof -
  have "(r * cos (a ! i))\<^sup>2 + (r * sin (a ! i))\<^sup>2 = r\<^sup>2 * ((cos (a ! i))\<^sup>2 + (sin (a ! i))\<^sup>2)"
    by (simp only: power_mult_distrib distrib_left)
  also have "\<dots> = r\<^sup>2"
    by simp
  finally show ?thesis
    by (simp only: frame_constant_def exact_arith_fields fst_conv snd_conv)
qed

subsection \<open>Claims about the evaluator\<close>




text \<open>
  C2, as stated: a starting point of modulus above 4 gives escape time \<open>0\<close>. It fails:
  the modulus is tested only after the update \<^verbatim>\<open>z = z ** 2 + c\<close>, and the constant can
  bring the first iterate back. From \<open>z\<^sub>0 = 5\<close> with \<open>c = -25\<close> the first iterate is \<open>0\<close>
  and the second is \<open>-25\<close>, so the result is \<open>1\<close>.
\<close>

theorem julia_quadratic_far_start_counterexample:
  "cmod (Complex 5 0) > 4 \<and> julia_quadratic_fp exact_arith 5 0 (- 25) 0 2 = Inr 1"
  by (simp add: julia_quadratic_fp_exact julia_quadratic_def upto_rec1 cmod_gt_4_iff
        power2_eq_square)

text \<open>
  C2, amended: when the first iterate \<open>z\<^sub>1 = z\<^sub>0\<^sup>2 + c\<close>, as the program computes it, has
  a modulus that tests above 4, the evaluator returns \<open>0\<close>, for every threshold of at
  least 1; and for a threshold of at least 2 it returns \<open>0\<close> in no other case. The
  modulus of the starting point is never tested.
\<close>

theorem julia_quadratic_first_iterate:
  "(1 \<le> thr \<and> c_pow2 ar (complex_of ar zx zy) = Inr p \<and>
      c_abs ar (c_add ar p (complex_of ar cx cy)) = Inr m \<and> f_gt4 ar m \<longrightarrow>
      julia_quadratic_fp ar zx zy cx cy thr = Inr 0) \<and>
   (2 \<le> thr \<and> julia_quadratic_fp ar zx zy cx cy thr = Inr 0 \<longrightarrow>
      (\<exists>p m. c_pow2 ar (complex_of ar zx zy) = Inr p \<and>
         c_abs ar (c_add ar p (complex_of ar cx cy)) = Inr m \<and> f_gt4 ar m))"
proof (intro conjI impI)
  assume a: "1 \<le> thr \<and> c_pow2 ar (complex_of ar zx zy) = Inr p \<and>
      c_abs ar (c_add ar p (complex_of ar cx cy)) = Inr m \<and> f_gt4 ar m"
  then have "[0..thr - 1] = 0 # [1..thr - 1]"
    by (simp add: upto_rec1)
  with a show "julia_quadratic_fp ar zx zy cx cy thr = Inr 0"
    by (simp add: julia_quadratic_fp_cases julia_loop_fp_first)
next
  assume a: "2 \<le> thr \<and> julia_quadratic_fp ar zx zy cx cy thr = Inr 0"
  let ?z = "complex_of ar zx zy" and ?c = "complex_of ar cx cy"
  from a have range: "[0..thr - 1] = 0 # [1..thr - 1]"
    by (simp add: upto_rec1)
  from a have "julia_loop_fp ar ?z ?c (f_of_nat ar 0) [0..thr - 1] = Inr (Some 0)"
    by (auto simp: julia_quadratic_fp_cases split: sum.splits option.splits)
  then have "julia_loop_fp ar ?z ?c (f_of_nat ar 0) (0 # [1..thr - 1]) = Inr (Some 0)"
    by (simp only: range)
  moreover have "0 \<notin> set [1..thr - 1]" by simp
  ultimately show "\<exists>p m. c_pow2 ar ?z = Inr p \<and> c_abs ar (c_add ar p ?c) = Inr m \<and> f_gt4 ar m"
    by (rule julia_loop_fp_first_only)
qed

theorem julia_quadratic_first_iterate_witness:
  "julia_quadratic_fp exact_arith 5 0 3 4 50 = Inr 0"
proof -
  have "cmod ((Complex 5 0)\<^sup>2 + Complex 3 4) > 4"
    by (simp add: cmod_gt_4_iff power2_eq_square)
  then have "1 \<le> (50::int) \<and> c_pow2 exact_arith (complex_of exact_arith 5 0) = Inr ((Complex 5 0)\<^sup>2) \<and>
      c_abs exact_arith (c_add exact_arith ((Complex 5 0)\<^sup>2) (complex_of exact_arith 3 4)) =
        Inr (cmod ((Complex 5 0)\<^sup>2 + Complex 3 4)) \<and>
      f_gt4 exact_arith (cmod ((Complex 5 0)\<^sup>2 + Complex 3 4))"
    by (simp add: exact_arith_fields)
  with julia_quadratic_first_iterate [of 50 exact_arith 5 0 "(Complex 5 0)\<^sup>2" 3 4
      "cmod ((Complex 5 0)\<^sup>2 + Complex 3 4)"]
  show ?thesis by blast
qed

text \<open>
  C3, as stated: a threshold below 1 makes the evaluator fail with an error instead of
  returning a value. It fails: the function has no failing branch, and with threshold
  \<open>0\<close> it returns \<open>-1\<close>.
\<close>

theorem julia_quadratic_zero_threshold_counterexample:
  "julia_quadratic 0 0 0 0 0 = - 1"
  by (simp add: julia_quadratic_def)

text \<open>
  C3, amended: with a threshold below 1 the evaluator raises nothing; the loop body
  never runs and the value returned is \<open>threshold - 1\<close>, which is negative.
\<close>

theorem julia_quadratic_small_threshold:
  "thr < 1 \<Longrightarrow>
     julia_quadratic zx zy cx cy thr = thr - 1 \<and> julia_quadratic zx zy cx cy thr < 0"
  by (simp add: julia_quadratic_empty_range)

theorem julia_quadratic_small_threshold_witness:
  "julia_quadratic 1 2 3 4 (- 3) = - 3 - 1 \<and> julia_quadratic 1 2 3 4 (- 3) < 0"
  using julia_quadratic_small_threshold [of "- 3" 1 2 3 4] by simp

text \<open>
  C5. For every threshold of at least 1, if none of the iterates \<open>z\<^sub>1, \<dots>, z\<^sub>t\<close>
  (\<open>t\<close> the threshold) that the loop computes by \<^verbatim>\<open>z = z ** 2 + c\<close> has a modulus
  that tests above 4, then the evaluator returns \<open>threshold - 1\<close>, in every
  floating-point arithmetic; in particular \<open>julia_quadratic 0 0 0 0 50 = 49\<close>.
\<close>

theorem julia_quadratic_bounded_orbit:
  "(1 \<le> thr \<and>
     (\<forall>k \<in> {1..nat thr}. \<exists>zk m.
        orbit_fp ar (complex_of ar zx zy) (complex_of ar cx cy) k = Inr zk \<and>
        c_abs ar zk = Inr m \<and> \<not> f_gt4 ar m)
      \<longrightarrow> julia_quadratic_fp ar zx zy cx cy thr = Inr (thr - 1))
   \<and> julia_quadratic_fp exact_arith 0 0 0 0 50 = Inr 49"
proof
  show "1 \<le> thr \<and>
     (\<forall>k \<in> {1..nat thr}. \<exists>zk m.
        orbit_fp ar (complex_of ar zx zy) (complex_of ar cx cy) k = Inr zk \<and>
        c_abs ar zk = Inr m \<and> \<not> f_gt4 ar m)
      \<longrightarrow> julia_quadratic_fp ar zx zy cx cy thr = Inr (thr - 1)"
  proof
    assume a: "1 \<le> thr \<and>
     (\<forall>k \<in> {1..nat thr}. \<exists>zk m.
        orbit_fp ar (complex_of ar zx zy) (complex_of ar cx cy) k = Inr zk \<and>
        c_abs ar zk = Inr m \<and> \<not> f_gt4 ar m)"
    have "length [0..thr - 1] = nat thr" by simp
    with a have "\<forall>k \<in> {1..length [0..thr - 1]}. \<exists>zk m.
        orbit_fp ar (complex_of ar zx zy) (complex_of ar cx cy) k = Inr zk \<and>
        c_abs ar zk = Inr m \<and> \<not> f_gt4 ar m"
      by simp
    then have "julia_loop_fp ar (complex_of ar zx zy) (complex_of ar cx cy) (f_of_nat ar 0)
        [0..thr - 1] = Inr None"
      by (rule julia_loop_fp_None)
    then show "julia_quadratic_fp ar zx zy cx cy thr = Inr (thr - 1)"
      by (simp add: julia_quadratic_fp_cases)
  qed
next
  have "\<forall>k \<in> {1..length [0..(50::int) - 1]}. \<exists>zk m.
      orbit_fp exact_arith (complex_of exact_arith 0 0) (complex_of exact_arith 0 0) k = Inr zk \<and>
      c_abs exact_arith zk = Inr m \<and> \<not> f_gt4 exact_arith m"
    by (simp add: exact_arith_fields orbit_fp_zero)
  then have "julia_loop_fp exact_arith (complex_of exact_arith 0 0) (complex_of exact_arith 0 0)
      (f_of_nat exact_arith 0) [0..50 - 1] = Inr None"
    by (rule julia_loop_fp_None)
  then show "julia_quadratic_fp exact_arith 0 0 0 0 50 = Inr 49"
    by (simp add: julia_quadratic_fp_cases)
qed

theorem julia_quadratic_bounded_orbit_witness:
  "julia_quadratic_fp exact_arith 1 0 0 0 7 = Inr 6"
proof -
  have "\<forall>k \<in> {1..nat 7}. \<exists>zk m.
      orbit_fp exact_arith (complex_of exact_arith 1 0) (complex_of exact_arith 0 0) k = Inr zk \<and>
      c_abs exact_arith zk = Inr m \<and> \<not> f_gt4 exact_arith m"
    by (simp add: exact_arith_fields orbit_fp_one)
  with julia_quadratic_bounded_orbit [of 7 exact_arith 1 0 0 0] show ?thesis by simp
qed

text \<open>
  C10. For all real \<open>zx\<close>, \<open>zy\<close>, \<open>cx\<close>, \<open>cy\<close> and every threshold (in particular
  every threshold of at least 1), negating the starting point leaves the escape time
  unchanged: \<open>(-z)\<^sup>2 = z\<^sup>2\<close>, so both orbits agree from the first iterate on, and
  the modulus is tested only after the update.
\<close>

theorem julia_quadratic_negated_start:
  "julia_quadratic (- zx) (- zy) cx cy thr = julia_quadratic zx zy cx cy thr"
proof -
  have "Complex (- zx) (- zy) = - Complex zx zy"
    by (simp add: complex_eq_iff)
  then show ?thesis
    by (simp add: julia_quadratic_def julia_loop_neg)
qed

theorem julia_quadratic_negated_start_witness:
  "julia_quadratic (- 1) (- 2) 3 4 5 = julia_quadratic 1 2 3 4 5"
  using julia_quadratic_negated_start [of 1 2 3 4 5] by simp

subsection \<open>Claims about the frame generator\<close>

text \<open>
  C8, as stated: the array emitted for a frame has shape \<open>(W, H)\<close> with
  \<open>W = width * density\<close> and \<open>H = height * density\<close>. It fails where \<open>W \<noteq> H\<close>:
  \<open>animate\<close> fills an array of shape \<open>(W, H)\<close> and hands its transpose to the renderer.
  With \<open>width = 1\<close>, \<open>height = 2\<close> and \<open>density = 1\<close> the emitted array has shape
  \<open>(2, 1)\<close>, not \<open>(1, 2)\<close>.
\<close>

theorem emitted_frames_counterexample:
  "\<not> isl (animate exact_arith (projr (generate_setup exact_arith (init
      \<lparr>x_start = PyInt (- 2), y_start = PyInt (- 2), width = PyInt 1, height = PyInt 2,
       init_r = 1, density = 1, threshold = 10, interval = 40, frames = 1,
       filename = ''julia_set.gif''\<rparr>))) 0)
   \<and> shape (snd (projr (animate exact_arith (projr (generate_setup exact_arith (init
      \<lparr>x_start = PyInt (- 2), y_start = PyInt (- 2), width = PyInt 1, height = PyInt 2,
       init_r = 1, density = 1, threshold = 10, interval = 40, frames = 1,
       filename = ''julia_set.gif''\<rparr>))) 0))) = (2, 1)
   \<and> (2, 1) \<noteq> (nat (1 * 1), nat (2 * 1))"
proof -
  let ?conf = "\<lparr>x_start = PyInt (- 2), y_start = PyInt (- 2), width = PyInt 1, height = PyInt 2,
       init_r = 1, density = 1, threshold = 10, interval = 40, frames = 1,
       filename = ''julia_set.gif''\<rparr> :: real config"
  have "\<exists>s self' imgs re im a.
    generate_setup exact_arith (init ?conf) = Inr s \<and>
    generate exact_arith [0] (init ?conf) = Inr (self', imgs) \<and>
    self_re s = Some re \<and> self_im s = Some im \<and> self_a s = Some a \<and>
    length re = nat (1 * density ?conf) \<and> length im = nat (2 * density ?conf) \<and>
    init_r s = init_r ?conf \<and> threshold s = threshold ?conf \<and>
    length imgs = length [0::nat] \<and>
    (\<forall>n < length [0::nat]. \<exists>X. escape_grid exact_arith s ([0] ! n) = Inr X \<and>
       imgs ! n = transposed X)"
    by (rule run_succeeds [OF raises_nothing_exact]) simp_all
  then obtain s re im a X where
    s: "generate_setup exact_arith (init ?conf) = Inr s"
    and st: "self_re s = Some re" "self_im s = Some im" "self_a s = Some a"
    and lens: "length re = 1" "length im = 2"
    and X: "escape_grid exact_arith s 0 = Inr X"
    by auto
  from emitted_cells [OF X st] lens have "shape (transposed X) = (2, 1)"
    by simp
  with s animate_total [OF X] show ?thesis by simp
qed

text \<open>
  C8, amended: for every configuration with \<open>threshold \<ge> 1\<close> and every run that returns,
  whatever frame indices the writer passes to \<open>animate\<close> and in every floating-point
  arithmetic, one array is emitted per call; it is the transpose of the grid \<open>X\<close> the
  call computed, so it has shape \<open>(H, W)\<close> with \<open>H = height * density\<close> rows and
  \<open>W = width * density\<close> columns, where \<open>X\<close> has shape \<open>(W, H)\<close>; and its cell \<open>(j, k)\<close>
  holds, as a float, the escape time of the grid point \<open>(re ! k, im ! j)\<close> under the
  constant of the frame, an integer between \<open>0\<close> and \<open>threshold - 1\<close>.
\<close>

theorem emitted_frames:
  assumes "generate ar calls (init conf) = Inr (self', imgs)" and "1 \<le> threshold conf"
  shows "\<exists>w h re im a.
    width conf = PyInt w \<and> height conf = PyInt h \<and>
    self_re self' = Some re \<and> self_im self' = Some im \<and> self_a self' = Some a \<and>
    length re = nat (w * density conf) \<and> length im = nat (h * density conf) \<and>
    length imgs = length calls \<and>
    (\<forall>n < length calls. \<exists>X.
       escape_grid ar self' (calls ! n) = Inr X \<and>
       shape X = (nat (w * density conf), nat (h * density conf)) \<and>
       imgs ! n = transposed X \<and>
       shape (imgs ! n) = (nat (h * density conf), nat (w * density conf)) \<and>
       length (data (imgs ! n)) = nat (h * density conf) \<and>
       (\<forall>j < nat (h * density conf).
          length (data (imgs ! n) ! j) = nat (w * density conf) \<and>
          (\<forall>k < nat (w * density conf). \<exists>v.
             julia_quadratic_fp ar (re ! k) (im ! j)
               (fst (frame_constant ar (init_r conf) a (calls ! n)))
               (snd (frame_constant ar (init_r conf) a (calls ! n))) (threshold conf) = Inr v \<and>
             0 \<le> v \<and> v \<le> threshold conf - 1 \<and>
             f_of_int ar v = Inr (data (imgs ! n) ! j ! k) \<and>
             data (imgs ! n) ! j ! k = data X ! k ! j)))"
proof -
  from generate_Inr [OF assms(1)] obtain s where
    s: "generate_setup ar (init conf) = Inr s"
    and run: "animate_calls ar s calls = Inr (self', imgs)"
    by blast
  from setup_state [OF s] obtain w h re im a where
    wh: "width conf = PyInt w" "height conf = PyInt h"
    and re: "self_re s = Some re" and im: "self_im s = Some im" and a: "self_a s = Some a"
    and lre: "length re = nat (w * density conf)" and lim: "length im = nat (h * density conf)"
    and par: "init_r s = init_r conf" "threshold s = threshold conf"
    by (auto simp: length_linspace_samples)
  from animate_calls_Inr [OF run] obtain ax where
    len: "length imgs = length calls" and keep: "self' = s\<lparr>self_ax := ax\<rparr>"
    and nth: "\<forall>n < length calls. \<exists>X. escape_grid ar s (calls ! n) = Inr X \<and>
        imgs ! n = transposed X"
    by blast
  have frame: "\<exists>X.
       escape_grid ar self' (calls ! n) = Inr X \<and>
       shape X = (nat (w * density conf), nat (h * density conf)) \<and>
       imgs ! n = transposed X \<and>
       shape (imgs ! n) = (nat (h * density conf), nat (w * density conf)) \<and>
       length (data (imgs ! n)) = nat (h * density conf) \<and>
       (\<forall>j < nat (h * density conf).
          length (data (imgs ! n) ! j) = nat (w * density conf) \<and>
          (\<forall>k < nat (w * density conf). \<exists>v.
             julia_quadratic_fp ar (re ! k) (im ! j)
               (fst (frame_constant ar (init_r conf) a (calls ! n)))
               (snd (frame_constant ar (init_r conf) a (calls ! n))) (threshold conf) = Inr v \<and>
             0 \<le> v \<and> v \<le> threshold conf - 1 \<and>
             f_of_int ar v = Inr (data (imgs ! n) ! j ! k) \<and>
             data (imgs ! n) ! j ! k = data X ! k ! j))"
    if n: "n < length calls" for n
  proof -
    from nth n obtain X where X: "escape_grid ar s (calls ! n) = Inr X"
      and img: "imgs ! n = transposed X"
      by blast
    from emitted_cells [OF X re im a] have
      sh: "shape X = (length re, length im)"
      and sht: "shape (transposed X) = (length im, length re)"
      and rows: "length (data (transposed X)) = length im"
      and cells: "\<forall>j < length im. length (data (transposed X) ! j) = length re \<and>
       (\<forall>k < length re. \<exists>v.
          julia_quadratic_fp ar (re ! k) (im ! j) (fst (frame_constant ar (init_r s) a (calls ! n)))
            (snd (frame_constant ar (init_r s) a (calls ! n))) (threshold s) = Inr v \<and>
          f_of_int ar v = Inr (data (transposed X) ! j ! k) \<and>
          data (transposed X) ! j ! k = data X ! k ! j)"
      by blast+
    have "\<exists>v. julia_quadratic_fp ar (re ! k) (im ! j)
               (fst (frame_constant ar (init_r conf) a (calls ! n)))
               (snd (frame_constant ar (init_r conf) a (calls ! n))) (threshold conf) = Inr v \<and>
             0 \<le> v \<and> v \<le> threshold conf - 1 \<and>
             f_of_int ar v = Inr (data (imgs ! n) ! j ! k) \<and>
             data (imgs ! n) ! j ! k = data X ! k ! j"
      if "j < length im" "k < length re" for j k
    proof -
      from cells that obtain v where
        v: "julia_quadratic_fp ar (re ! k) (im ! j)
               (fst (frame_constant ar (init_r conf) a (calls ! n)))
               (snd (frame_constant ar (init_r conf) a (calls ! n))) (threshold conf) = Inr v"
        and st: "f_of_int ar v = Inr (data (transposed X) ! j ! k)"
          "data (transposed X) ! j ! k = data X ! k ! j"
        unfolding par by blast
      from julia_quadratic_fp_bounds [OF assms(2) v] v st img show ?thesis
        by simp
    qed
    moreover have "escape_grid ar self' (calls ! n) = Inr X"
      using X keep by (simp add: escape_grid_ax)
    ultimately show ?thesis
      using sh sht rows cells img unfolding lre lim by auto
  qed
  have "self_re self' = Some re" "self_im self' = Some im" "self_a self' = Some a"
    using keep re im a by simp_all
  with wh lre lim len frame show ?thesis by blast
qed

theorem emitted_frames_witness:
  "\<exists>self' imgs. generate exact_arith [0] (init
      \<lparr>x_start = PyInt (- 2), y_start = PyInt (- 2), width = PyInt 1, height = PyInt 2,
       init_r = 1, density = 1, threshold = 10, interval = 40, frames = 1,
       filename = ''julia_set.gif''\<rparr>) = Inr (self', imgs) \<and>
     map shape imgs = [(2, 1)] \<and> map (\<lambda>img. length (data img)) imgs = [2]"
proof -
  let ?conf = "\<lparr>x_start = PyInt (- 2), y_start = PyInt (- 2), width = PyInt 1, height = PyInt 2,
       init_r = 1, density = 1, threshold = 10, interval = 40, frames = 1,
       filename = ''julia_set.gif''\<rparr> :: real config"
  have "\<exists>s self' imgs re im a.
    generate_setup exact_arith (init ?conf) = Inr s \<and>
    generate exact_arith [0] (init ?conf) = Inr (self', imgs) \<and>
    self_re s = Some re \<and> self_im s = Some im \<and> self_a s = Some a \<and>
    length re = nat (1 * density ?conf) \<and> length im = nat (2 * density ?conf) \<and>
    init_r s = init_r ?conf \<and> threshold s = threshold ?conf \<and>
    length imgs = length [0::nat] \<and>
    (\<forall>n < length [0::nat]. \<exists>X. escape_grid exact_arith s ([0] ! n) = Inr X \<and>
       imgs ! n = transposed X)"
    by (rule run_succeeds [OF raises_nothing_exact]) simp_all
  then obtain self' imgs where
    g: "generate exact_arith [0] (init ?conf) = Inr (self', imgs)"
    by blast
  from emitted_frames [OF g] have one: "length imgs = Suc 0"
    and "shape (imgs ! 0) = (2, 1)" and "length (data (imgs ! 0)) = 2"
    by auto
  with single_frame [OF one] have "map shape imgs = [(2, 1)]"
    and "map (\<lambda>img. length (data img)) imgs = [2]"
    by (metis list.simps(8,9))+
  with g have "generate exact_arith [0] (init ?conf) = Inr (self', imgs) \<and>
      map shape imgs = [(2, 1)] \<and> map (\<lambda>img. length (data img)) imgs = [2]"
    by simp
  then show ?thesis by (intro exI)
qed







end
